theory Spec2Isabelle
  imports Complex_Main "HOL-Library.Multiset"
begin

section \<open>Streak tracker (server/routes/exams.js, updateStreak)\<close>






text \<open>\<open>x || 0\<close> on a number: the right operand is taken when the left one is zero.\<close>

definition orZero :: "int \<Rightarrow> int" where
  "orZero x = (if x = 0 then 0 else x)"


section \<open>Numbers and rounding\<close>


definition toFixed2 :: "rat \<Rightarrow> rat" where
  "toFixed2 x =
     (if x < 0 then - (of_int \<lfloor>(- x) * 100 + 1 / 2\<rfloor> / 100)
      else of_int \<lfloor>x * 100 + 1 / 2\<rfloor> / 100)"

section \<open>History aggregator (client/src/components/Dashboard.tsx, derived stats)\<close>




section \<open>Exam model (client/src/types)\<close>

datatype qtype = Single | Multi

record question =
  q_id :: string
  q_question :: string
  q_options :: "string list"
  q_correctAnswers :: "string list"
  q_type :: qtype
  q_explanation :: "string option"
  q_topic :: "string option"

record exam =
  e_title :: string
  e_subject :: "string option"
  e_questions :: "question list"
  e_timeLimit :: "nat option"

record userAnswer =
  ua_questionId :: string
  ua_selectedAnswers :: "string list"
  ua_timeSpent :: int
  ua_flagged :: bool

section \<open>Scoring on the client (ExamResults, calculate results)\<close>



text \<open>
  \<open>selected.length === correct.length && selected.every((a) => correct.includes(a))
  && correct.every((a) => selected.includes(a))\<close>
\<close>

definition isCorrect :: "string list \<Rightarrow> string list \<Rightarrow> bool" where
  "isCorrect selected correct \<longleftrightarrow>
     length selected = length correct
     \<and> list_all (\<lambda>a. a \<in> set correct) selected
     \<and> list_all (\<lambda>a. a \<in> set selected) correct"




section \<open>Submission to the server (ExamResults payload, POST /submit)\<close>

record answerRecord =
  a_questionId :: string
  a_question :: string
  a_selectedAnswers :: "string list"
  a_correctAnswers :: "string list"
  a_isCorrect :: bool
  a_timeSpent :: "rat option"
  a_flagged :: "bool option"
  a_topic :: "string option"







definition digitChar :: "nat \<Rightarrow> char" where
  "digitChar d = ''0123456789'' ! (d mod 10)"

fun showNat :: "nat \<Rightarrow> string" where
  "showNat n = (if n < 10 then [digitChar n] else showNat (n div 10) @ [digitChar (n mod 10)])"

declare showNat.simps [simp del]


datatype httpError = BadRequest | NotFound


section \<open>Array.prototype.sort with a comparator\<close>

text \<open>
  \<open>xs.sort(cmp)\<close> is stable and, for a consistent comparator, orders \<open>a\<close> before \<open>b\<close>
  when \<open>cmp(a, b) < 0\<close>. It is modelled by the insertion sort that puts each element in
  front of the first element to its right that it does not compare greater than.
\<close>

fun insertBy :: "('a \<Rightarrow> 'a \<Rightarrow> rat) \<Rightarrow> 'a \<Rightarrow> 'a list \<Rightarrow> 'a list" where
  "insertBy cmp x [] = [x]"
| "insertBy cmp x (y # ys) = (if cmp x y \<le> 0 then x # y # ys else y # insertBy cmp x ys)"

definition sortBy :: "('a \<Rightarrow> 'a \<Rightarrow> rat) \<Rightarrow> 'a list \<Rightarrow> 'a list" where
  "sortBy cmp xs = foldr (insertBy cmp) xs []"

section \<open>Shared exams and their leaderboard (POST /shared/:shareId/score, GET .../leaderboard)\<close>

text \<open>
  A stored leaderboard entry; \<open>submittedAt\<close> is filled in by the schema default and plays
  no part in the ranking. Of a \<open>SavedExam\<close> the two routes read the title, the public flag
  and the leaderboard. The store is keyed by \<open>shareId\<close>, which the schema declares unique.
\<close>

record leaderboardEntry =
  lb_nickname :: string
  lb_score :: rat
  lb_total :: rat
  lb_percentage :: rat
  lb_timeTaken :: rat

record savedExam =
  se_title :: string
  se_isPublic :: bool
  se_leaderboard :: "leaderboardEntry list"

type_synonym examStore = "string \<rightharpoonup> savedExam"

text \<open>
  The request body: \<open>nickname\<close> is absent or a string, \<open>score\<close> is a number or else
  (\<open>None\<close>) absent or of another type, the other three fields are numbers.
\<close>

record scoreBody =
  sb_nickname :: "string option"
  sb_score :: "rat option"
  sb_total :: rat
  sb_percentage :: rat
  sb_timeTaken :: rat

text \<open>\<open>SavedExam.findOne({ shareId, isPublic: true })\<close>\<close>

definition findShared :: "examStore \<Rightarrow> string \<Rightarrow> savedExam option" where
  "findShared db shareId =
     (case db shareId of
        None \<Rightarrow> None
      | Some e \<Rightarrow> if se_isPublic e then Some e else None)"

text \<open>\<open>(a, b) => b.percentage - a.percentage || a.timeTaken - b.timeTaken\<close>\<close>

definition cmpLeaderboard :: "leaderboardEntry \<Rightarrow> leaderboardEntry \<Rightarrow> rat" where
  "cmpLeaderboard a b =
     (let d = lb_percentage b - lb_percentage a
      in if d \<noteq> 0 then d else lb_timeTaken a - lb_timeTaken b)"

definition ranking :: "leaderboardEntry list \<Rightarrow> leaderboardEntry list" where
  "ranking lb = take 20 (sortBy cmpLeaderboard lb)"

text \<open>\<open>!nickname\<close> holds of an absent nickname and of the empty string.\<close>

definition postScore ::
  "examStore \<Rightarrow> string \<Rightarrow> scoreBody \<Rightarrow> httpError + (examStore \<times> leaderboardEntry list)" where
  "postScore db shareId body =
     (case (sb_nickname body, sb_score body) of
        (Some nickname, Some score) \<Rightarrow>
          if nickname = [] then Inl BadRequest
          else
            (case findShared db shareId of
               None \<Rightarrow> Inl NotFound
             | Some ex \<Rightarrow>
                 let lb = se_leaderboard ex @
                       [\<lparr>lb_nickname = nickname, lb_score = score, lb_total = sb_total body,
                         lb_percentage = sb_percentage body,
                         lb_timeTaken = sb_timeTaken body\<rparr>]
                 in Inr (db(shareId \<mapsto> ex\<lparr>se_leaderboard := lb\<rparr>), ranking lb))
      | _ \<Rightarrow> Inl BadRequest)"


section \<open>Weak-area analyzer (GET /weak-areas)\<close>

text \<open>
  \<open>stats\<close> is a plain object used as a dictionary from question ids to counters. It is
  modelled by the list of its own properties in the order of their creation, one pair per
  key. Two features of plain objects are part of the model:
  \<^item> a lookup \<open>stats[k]\<close> of a key that is not an own property reads the prototype, so for
    the names of the members of \<open>Object.prototype\<close> it yields a function or an object,
    which is truthy, and the increments that follow change that value and not \<open>stats\<close>;
  \<^item> \<open>Object.entries\<close> lists the keys that are array indices first, in ascending numeric
    order, and the other keys after them in the order of their creation.
\<close>

record stat =
  st_question :: string
  st_correctAnswers :: "string list"
  st_options :: "string list"
  st_topic :: "string option"
  st_wrong :: nat
  st_total :: nat

definition inheritedKeys :: "string list" where
  "inheritedKeys =
     [''constructor'', ''__proto__'', ''hasOwnProperty'', ''isPrototypeOf'',
      ''propertyIsEnumerable'', ''toLocaleString'', ''toString'', ''valueOf'',
      ''__defineGetter__'', ''__defineSetter__'', ''__lookupGetter__'', ''__lookupSetter__'']"

text \<open>\<open>a.topic || null\<close>\<close>

definition topicOrNull :: "string option \<Rightarrow> string option" where
  "topicOrNull t = (case t of None \<Rightarrow> None | Some s \<Rightarrow> if s = [] then None else Some s)"

definition newStat :: "answerRecord \<Rightarrow> stat" where
  "newStat a =
     \<lparr>st_question = a_question a, st_correctAnswers = a_correctAnswers a, st_options = [],
      st_topic = topicOrNull (a_topic a), st_wrong = 0, st_total = 0\<rparr>"

text \<open>\<open>stats[id].total++; if (!a.isCorrect) stats[id].wrong++\<close>\<close>

definition bump :: "answerRecord \<Rightarrow> stat \<Rightarrow> stat" where
  "bump a s =
     s\<lparr>st_total := st_total s + 1,
       st_wrong := (if \<not> a_isCorrect a then st_wrong s + 1 else st_wrong s)\<rparr>"

definition addAnswer :: "(string \<times> stat) list \<Rightarrow> answerRecord \<Rightarrow> (string \<times> stat) list" where
  "addAnswer stats a =
     (let k = a_questionId a in
      if map_of stats k = None \<and> k \<in> set inheritedKeys then stats
      else
        let stats1 = (if map_of stats k = None then stats @ [(k, newStat a)] else stats)
        in map (\<lambda>(k', s). if k' = k then (k', bump a s) else (k', s)) stats1)"

text \<open>The two nested loops over the results and over the answers of each result.\<close>

definition groupStats :: "answerRecord list list \<Rightarrow> (string \<times> stat) list" where
  "groupStats results = foldl (\<lambda>stats result. foldl addAnswer stats result) [] results"

definition isDigit :: "char \<Rightarrow> bool" where
  "isDigit c \<longleftrightarrow> c \<in> set ''0123456789''"

definition digitVal :: "char \<Rightarrow> nat" where
  "digitVal c = of_char c - 48"

definition natOfDigits :: "string \<Rightarrow> nat" where
  "natOfDigits k = foldl (\<lambda>n c. 10 * n + digitVal c) 0 k"

text \<open>
  An array index is the canonical decimal numeral of an integer from 0 to \<open>2^32 - 2\<close>.
\<close>

definition isArrayIndex :: "string \<Rightarrow> bool" where
  "isArrayIndex k \<longleftrightarrow>
     (case k of
        [] \<Rightarrow> False
      | c # cs \<Rightarrow>
          list_all isDigit k \<and> (c \<noteq> CHR ''0'' \<or> cs = []) \<and> natOfDigits k < 4294967295)"

definition objectEntries :: "(string \<times> 'v) list \<Rightarrow> (string \<times> 'v) list" where
  "objectEntries kvs =
     sort_key (\<lambda>kv. natOfDigits (fst kv)) (filter (\<lambda>kv. isArrayIndex (fst kv)) kvs)
     @ filter (\<lambda>kv. \<not> isArrayIndex (fst kv)) kvs"

record weakArea =
  wa_questionId :: string
  wa_question :: string
  wa_correctAnswers :: "string list"
  wa_options :: "string list"
  wa_topic :: "string option"
  wa_timesAttempted :: nat
  wa_userAccuracy :: rat

text \<open>\<open>s.total >= 2 && s.wrong / s.total > 0.4\<close>\<close>

definition isWeak :: "stat \<Rightarrow> bool" where
  "isWeak s \<longleftrightarrow> st_total s \<ge> 2 \<and> (of_nat (st_wrong s) / of_nat (st_total s) :: rat) > 2 / 5"

definition toWeakArea :: "string \<times> stat \<Rightarrow> weakArea" where
  "toWeakArea kv =
     (let s = snd kv in
      \<lparr>wa_questionId = fst kv,
       wa_question = st_question s,
       wa_correctAnswers = st_correctAnswers s,
       wa_options = st_options s,
       wa_topic = st_topic s,
       wa_timesAttempted = st_total s,
       wa_userAccuracy = toFixed2 (1 - of_nat (st_wrong s) / of_nat (st_total s))\<rparr>)"

text \<open>\<open>(a, b) => a.userAccuracy - b.userAccuracy\<close>\<close>

definition cmpAccuracy :: "weakArea \<Rightarrow> weakArea \<Rightarrow> rat" where
  "cmpAccuracy a b = wa_userAccuracy a - wa_userAccuracy b"

definition weakCandidates :: "(string \<times> stat) list \<Rightarrow> weakArea list" where
  "weakCandidates stats = map toWeakArea (filter (\<lambda>kv. isWeak (snd kv)) (objectEntries stats))"

definition weakAreas :: "answerRecord list list \<Rightarrow> weakArea list" where
  "weakAreas results = take 30 (sortBy cmpAccuracy (weakCandidates (groupStats results)))"

text \<open>
  The words of the specification, for comparison with \<open>groupStats\<close>: the records of a
  question id in the flattened history, the number of attempts and the number of wrong
  answers.
\<close>

definition occurrences :: "answerRecord list list \<Rightarrow> string \<Rightarrow> answerRecord list" where
  "occurrences results k = filter (\<lambda>a. a_questionId a = k) (concat results)"



text \<open>
  What the grouping holds for a question id, in terms of its records in the history: the
  text, correct answers and topic of the first record, no options, and the two counters.
\<close>

fun groupOf :: "answerRecord list \<Rightarrow> stat option" where
  "groupOf [] = None"
| "groupOf (a # as) =
     Some \<lparr>st_question = a_question a, st_correctAnswers = a_correctAnswers a,
           st_options = [], st_topic = topicOrNull (a_topic a),
           st_wrong = length (filter (\<lambda>x. \<not> a_isCorrect x) (a # as)),
           st_total = length (a # as)\<rparr>"

section \<open>Question-set normalizer (client/src/components/ExamSetup.tsx, parseQuestions)\<close>

text \<open>
  The input is the value returned by \<open>JSON.parse\<close>. An object is the list of its
  properties, one pair per key. A property that is absent reads as \<open>undefined\<close>, which is
  \<open>None\<close> here; reading a property of \<open>null\<close> throws a \<open>TypeError\<close>.
\<close>

datatype json =
    JNull
  | JBool bool
  | JNum rat
  | JStr string
  | JArr "json list"
  | JObj "(string \<times> json) list"

fun truthy :: "json option \<Rightarrow> bool" where
  "truthy None = False"
| "truthy (Some JNull) = False"
| "truthy (Some (JBool b)) = b"
| "truthy (Some (JNum n)) = (n \<noteq> 0)"
| "truthy (Some (JStr s)) = (s \<noteq> [])"
| "truthy (Some (JArr xs)) = True"
| "truthy (Some (JObj kvs)) = True"

fun isArray :: "json option \<Rightarrow> bool" where
  "isArray (Some (JArr xs)) = True"
| "isArray _ = False"

fun elems :: "json option \<Rightarrow> json list" where
  "elems (Some (JArr xs)) = xs"
| "elems _ = []"

fun getProp :: "json \<Rightarrow> string \<Rightarrow> json option" where
  "getProp (JObj kvs) k = map_of kvs k"
| "getProp _ k = None"

record parsedQuestion =
  pq_id :: json
  pq_question :: "json option"
  pq_options :: "json list"
  pq_correctAnswers :: "json list"
  pq_type :: qtype
  pq_explanation :: "json option"
  pq_topic :: "json option"

datatype parseError = NotAnArray | InvalidQuestion nat | NoCorrectAnswer nat | TypeError

text \<open>
  \<open>Array.isArray(q.correctAnswers) ? q.correctAnswers : q.correctAnswer ? [q.correctAnswer] : []\<close>
\<close>

definition resolveCorrect :: "json \<Rightarrow> json list" where
  "resolveCorrect q =
     (if isArray (getProp q ''correctAnswers'') then elems (getProp q ''correctAnswers'')
      else (case getProp q ''correctAnswer'' of
              Some v \<Rightarrow> if truthy (Some v) then [v] else []
            | None \<Rightarrow> []))"

definition buildQuestion :: "nat \<Rightarrow> json \<Rightarrow> parsedQuestion" where
  "buildQuestion i q =
     (let correctAnswers = resolveCorrect q in
      \<lparr>pq_id = (case getProp q ''id'' of
                  Some v \<Rightarrow> if truthy (Some v) then v else JStr (''q_'' @ showNat (i + 1))
                | None \<Rightarrow> JStr (''q_'' @ showNat (i + 1))),
       pq_question = getProp q ''question'',
       pq_options = elems (getProp q ''options''),
       pq_correctAnswers = correctAnswers,
       pq_type = (if length correctAnswers > 1 then Multi else Single),
       pq_explanation = getProp q ''explanation'',
       pq_topic = getProp q ''topic''\<rparr>)"

text \<open>The callback of \<open>parsed.map((q, i) => ...)\<close>, a throw being a left value.\<close>

definition parseOne :: "nat \<Rightarrow> json \<Rightarrow> parseError + parsedQuestion" where
  "parseOne i q =
     (if q = JNull then Inl TypeError
      else if \<not> truthy (getProp q ''question'') \<or> \<not> truthy (getProp q ''options'')
              \<or> \<not> isArray (getProp q ''options'')
      then Inl (InvalidQuestion i)
      else if length (resolveCorrect q) = 0 then Inl (NoCorrectAnswer (i + 1))
      else Inr (buildQuestion i q))"

text \<open>\<open>map\<close> visits the elements in order and the first throw ends it.\<close>

fun parseFrom :: "nat \<Rightarrow> json list \<Rightarrow> parseError + parsedQuestion list" where
  "parseFrom i [] = Inr []"
| "parseFrom i (q # qs) =
     (case parseOne i q of
        Inl e \<Rightarrow> Inl e
      | Inr x \<Rightarrow>
          (case parseFrom (i + 1) qs of
             Inl e \<Rightarrow> Inl e
           | Inr xs \<Rightarrow> Inr (x # xs)))"

definition parseQuestions :: "json \<Rightarrow> parseError + parsedQuestion list" where
  "parseQuestions parsed =
     (case parsed of
        JArr qs \<Rightarrow> parseFrom 0 qs
      | _ \<Rightarrow> Inl NotAnArray)"

text \<open>
  The records that \<open>parseQuestions\<close> lets through, and the error it raises at a record
  that it does not, for the statement of its contract.
\<close>

definition wellFormed :: "json \<Rightarrow> bool" where
  "wellFormed q \<longleftrightarrow>
     q \<noteq> JNull \<and> truthy (getProp q ''question'') \<and> isArray (getProp q ''options'')
     \<and> resolveCorrect q \<noteq> []"

definition malformedError :: "nat \<Rightarrow> json \<Rightarrow> parseError" where
  "malformedError i q =
     (if q = JNull then TypeError
      else if \<not> truthy (getProp q ''question'') \<or> \<not> isArray (getProp q ''options'')
      then InvalidQuestion i
      else NoCorrectAnswer (i + 1))"

section \<open>Exam session (client/src/components/ExamInterface.tsx)\<close>

text \<open>
  The state of the component: the four pieces of React state that the submission reads,
  and the two refs holding readings of \<open>Date.now()\<close>. Clock readings are inputs of the
  events, one per event: the two consecutive readings inside \<open>flushCurrentTime\<close> are
  taken to be the same instant. A render in which \<open>exam.questions[currentIndex]\<close> is undefined throws (the
  component reads \<open>question.id\<close>); a state transition that leads there is \<open>None\<close>.
\<close>

record session =
  currentIndex :: nat
  answers :: "string \<rightharpoonup> string list"
  flagged :: "string set"
  questionTimes :: "string \<rightharpoonup> int"
  startTime :: int
  questionStart :: int

datatype event =
    HandleNext int
  | HandlePrev int
  | GoTo nat int
  | ToggleFlag "string option"
  | AnswerChange "string list"

definition initSession :: "int \<Rightarrow> exam \<Rightarrow> session option" where
  "initSession now ex =
     (if e_questions ex = [] then None
      else Some \<lparr>currentIndex = 0, answers = Map.empty, flagged = {},
                 questionTimes = Map.empty, startTime = now, questionStart = now\<rparr>)"

text \<open>The id of the question on display; the index is in range in every rendered state.\<close>

definition currentId :: "exam \<Rightarrow> session \<Rightarrow> string" where
  "currentId ex s = q_id (e_questions ex ! currentIndex s)"

definition elapsedSince :: "int \<Rightarrow> int \<Rightarrow> int" where
  "elapsedSince now start = (now - start) div 1000"

definition flushCurrentTime :: "int \<Rightarrow> exam \<Rightarrow> session \<Rightarrow> session" where
  "flushCurrentTime now ex s =
     (let elapsed = elapsedSince now (questionStart s);
          qId = currentId ex s
      in s\<lparr>questionTimes :=
              (if elapsed > 0
               then (questionTimes s)
                      (qId \<mapsto> (case questionTimes s qId of None \<Rightarrow> 0 | Some t \<Rightarrow> orZero t)
                               + elapsed)
               else questionTimes s),
            questionStart := now\<rparr>)"

definition goTo :: "nat \<Rightarrow> int \<Rightarrow> exam \<Rightarrow> session \<Rightarrow> session option" where
  "goTo idx now ex s =
     (if idx < length (e_questions ex)
      then Some ((flushCurrentTime now ex s)\<lparr>currentIndex := idx\<rparr>)
      else None)"

definition toggleFlag :: "string option \<Rightarrow> exam \<Rightarrow> session \<Rightarrow> session" where
  "toggleFlag target ex s =
     (let t = (case target of Some k \<Rightarrow> k | None \<Rightarrow> currentId ex s)
      in s\<lparr>flagged := (if t \<in> flagged s then flagged s - {t} else insert t (flagged s))\<rparr>)"

definition handleAnswerChange :: "string list \<Rightarrow> exam \<Rightarrow> session \<Rightarrow> session" where
  "handleAnswerChange selected ex s = s\<lparr>answers := (answers s)(currentId ex s \<mapsto> selected)\<rparr>"

fun step :: "exam \<Rightarrow> session \<Rightarrow> event \<Rightarrow> session option" where
  "step ex s (HandleNext now) =
     (if currentIndex s + 1 < length (e_questions ex) then goTo (currentIndex s + 1) now ex s
      else Some s)"
| "step ex s (HandlePrev now) =
     (if currentIndex s > 0 then goTo (currentIndex s - 1) now ex s else Some s)"
| "step ex s (GoTo idx now) = goTo idx now ex s"
| "step ex s (ToggleFlag target) = Some (toggleFlag target ex s)"
| "step ex s (AnswerChange selected) = Some (handleAnswerChange selected ex s)"

fun run :: "exam \<Rightarrow> session \<Rightarrow> event list \<Rightarrow> session option" where
  "run ex s [] = Some s"
| "run ex s (e # es) = (case step ex s e of None \<Rightarrow> None | Some s' \<Rightarrow> run ex s' es)"

text \<open>
  \<open>handleSubmit\<close>. The update that \<open>flushCurrentTime\<close> queues is applied at the next
  render; \<open>answersArr\<close> is built from the \<open>questionTimes\<close> of the current render, so the
  returned pair does not depend on it.
\<close>

definition handleSubmit :: "int \<Rightarrow> exam \<Rightarrow> session \<Rightarrow> userAnswer list \<times> int" where
  "handleSubmit now ex s =
     (let timeTaken = elapsedSince now (startTime s);
          answersArr =
            map (\<lambda>q. \<lparr>ua_questionId = q_id q,
                       ua_selectedAnswers =
                         (case answers s (q_id q) of None \<Rightarrow> [] | Some sel \<Rightarrow> sel),
                       ua_timeSpent =
                         (case questionTimes s (q_id q) of None \<Rightarrow> 0 | Some t \<Rightarrow> orZero t),
                       ua_flagged = (q_id q \<in> flagged s)\<rparr>)
                (e_questions ex)
      in (answersArr, timeTaken))"

text \<open>
  The question ids that a sequence of events interacts with: the question on display when
  an answer is chosen, the target of a flag toggle, and the question on display when a
  navigation records at least one second for it. The grid buttons call \<open>goTo\<close> with the
  index of an existing question.
\<close>

fun touchedBy :: "exam \<Rightarrow> session \<Rightarrow> event \<Rightarrow> string set" where
  "touchedBy ex s (HandleNext now) =
     (if currentIndex s + 1 < length (e_questions ex) \<and> elapsedSince now (questionStart s) > 0
      then {currentId ex s} else {})"
| "touchedBy ex s (HandlePrev now) =
     (if currentIndex s > 0 \<and> elapsedSince now (questionStart s) > 0
      then {currentId ex s} else {})"
| "touchedBy ex s (GoTo idx now) =
     (if elapsedSince now (questionStart s) > 0 then {currentId ex s} else {})"
| "touchedBy ex s (ToggleFlag target) =
     {case target of Some k \<Rightarrow> k | None \<Rightarrow> currentId ex s}"
| "touchedBy ex s (AnswerChange selected) = {currentId ex s}"

fun interacted :: "exam \<Rightarrow> session \<Rightarrow> event list \<Rightarrow> string set" where
  "interacted ex s [] = {}"
| "interacted ex s (e # es) =
     touchedBy ex s e
     \<union> (case step ex s e of None \<Rightarrow> {} | Some s' \<Rightarrow> interacted ex s' es)"

fun inRange :: "exam \<Rightarrow> event \<Rightarrow> bool" where
  "inRange ex (GoTo idx now) = (idx < length (e_questions ex))"
| "inRange ex _ = True"

section \<open>Streak tracker: properties\<close>







section \<open>Rounding: properties\<close>

lemma floor_rat_numeral_div:
  "\<lfloor>(numeral a :: rat) / numeral b\<rfloor> = numeral a div numeral b"
  using floor_divide_of_int_eq [of "numeral a" "numeral b", where ?'a = rat] by simp

lemma floor_rat_one_div:
  "\<lfloor>(1 :: rat) / numeral b\<rfloor> = 1 div numeral b"
  using floor_divide_of_int_eq [of 1 "numeral b", where ?'a = rat] by simp

lemmas floor_rat_eval = floor_rat_numeral_div floor_rat_one_div







section \<open>History aggregator: properties\<close>



section \<open>Scoring: properties\<close>


lemma isCorrect_iff: "isCorrect s c \<longleftrightarrow> length s = length c \<and> set s = set c"
  unfolding isCorrect_def list_all_iff by auto


lemma isCorrect_empty: "c \<noteq> [] \<Longrightarrow> \<not> isCorrect [] c"
  by (simp add: isCorrect_iff)










section \<open>Comparator sort: properties\<close>

lemma mset_insertBy: "mset (insertBy cmp x ys) = add_mset x (mset ys)"
  by (induction ys) simp_all

lemma mset_sortBy: "mset (sortBy cmp xs) = mset xs"
  unfolding sortBy_def by (induction xs) (simp_all add: mset_insertBy)


lemma length_sortBy: "length (sortBy cmp xs) = length xs"
  using mset_sortBy [of cmp xs] by (metis size_mset)





section \<open>Leaderboard: properties\<close>








text \<open>
  Claim C9 on the code. The only test of the nickname is \<open>!nickname\<close>: a submission with
  a nickname of 31 characters is appended to the stored list.
\<close>

theorem postScore_long_nickname:
  "map_sum id (\<lambda>(db, r). map_option (map (length \<circ> lb_nickname) \<circ> se_leaderboard) (db ''abc''))
     (postScore
       [''abc'' \<mapsto> \<lparr>se_title = ''Demo'', se_isPublic = True, se_leaderboard = []\<rparr>]
       ''abc''
       \<lparr>sb_nickname = Some ''abcdefghijklmnopqrstuvwxyz01234'', sb_score = Some 1,
        sb_total = 2, sb_percentage = 50, sb_timeTaken = 9\<rparr>)
   = Inr (Some [31])"
  by (simp add: postScore_def findShared_def Let_def)

section \<open>Weak-area analyzer: properties\<close>

lemma foldl_foldl_concat: "foldl (\<lambda>s r. foldl f s r) s rs = foldl f s (concat rs)"
  by (induction rs arbitrary: s) simp_all

lemma groupStats_concat: "groupStats rs = foldl addAnswer [] (concat rs)"
  by (simp add: groupStats_def foldl_foldl_concat)

lemma map_of_map_bump:
  "map_of (map (\<lambda>(k', s). if k' = k then (k', f s) else (k', s)) xs) k'' =
     (if k'' = k then map_option f (map_of xs k) else map_of xs k'')"
  by (induction xs) auto

lemma map_of_snoc:
  "map_of (xs @ [(k, v)]) k'' =
     (case map_of xs k'' of Some s \<Rightarrow> Some s | None \<Rightarrow> if k'' = k then Some v else None)"
  by (induction xs) auto

lemma map_of_addAnswer:
  "map_of (addAnswer stats a) k =
     (if k = a_questionId a then
        (case map_of stats k of
           Some s \<Rightarrow> Some (bump a s)
         | None \<Rightarrow> if k \<in> set inheritedKeys then None else Some (bump a (newStat a)))
      else map_of stats k)"
  unfolding addAnswer_def Let_def
  by (simp add: map_of_map_bump map_of_snoc del: map_of_append split: option.splits)

lemma groupOf_snoc:
  "groupOf (as @ [a]) =
     (case groupOf as of Some s \<Rightarrow> Some (bump a s) | None \<Rightarrow> Some (bump a (newStat a)))"
  by (cases as) (simp_all add: bump_def newStat_def)


lemma map_of_foldl_addAnswer:
  "map_of (foldl addAnswer [] hist) k =
     (if k \<in> set inheritedKeys then None
      else groupOf (filter (\<lambda>a. a_questionId a = k) hist))"
proof (induction hist rule: rev_induct)
  case Nil
  show ?case by simp
next
  case (snoc a hist)
  show ?case
  proof (cases "k = a_questionId a")
    case True
    have "map_of (foldl addAnswer [] (hist @ [a])) k =
        (case map_of (foldl addAnswer [] hist) k of
           Some s \<Rightarrow> Some (bump a s)
         | None \<Rightarrow> if k \<in> set inheritedKeys then None else Some (bump a (newStat a)))"
      using True by (simp add: map_of_addAnswer)
    also have "\<dots> = (if k \<in> set inheritedKeys then None
        else groupOf (filter (\<lambda>a. a_questionId a = k) (hist @ [a])))"
      unfolding snoc.IH using True by (simp add: groupOf_snoc split: option.splits)
    finally show ?thesis .
  next
    case False
    then show ?thesis by (simp add: map_of_addAnswer snoc.IH)
  qed
qed

lemma map_of_groupStats:
  "map_of (groupStats rs) k =
     (if k \<in> set inheritedKeys then None else groupOf (occurrences rs k))"
  by (simp add: groupStats_concat occurrences_def map_of_foldl_addAnswer)

lemma keys_addAnswer:
  "map fst (addAnswer stats a) =
     (if map_of stats (a_questionId a) = None \<and> a_questionId a \<notin> set inheritedKeys
      then map fst stats @ [a_questionId a] else map fst stats)"
proof -
  have "map fst (map (\<lambda>(k', s). if k' = k then (k', f s) else (k', s)) xs) = map fst xs"
    for k f and xs :: "(string \<times> stat) list"
    by (induction xs) auto
  then show ?thesis by (simp add: addAnswer_def Let_def)
qed

lemma distinct_keys_foldl: "distinct (map fst (foldl addAnswer [] hist))"
proof (induction hist rule: rev_induct)
  case Nil
  show ?case by simp
next
  case (snoc a hist)
  then show ?case
    by (auto simp: keys_addAnswer map_of_eq_None_iff)
qed

lemma distinct_keys_groupStats: "distinct (map fst (groupStats rs))"
  by (simp add: groupStats_concat distinct_keys_foldl)



lemma mset_objectEntries: "mset (objectEntries kvs) = mset kvs"
  unfolding objectEntries_def by (simp add: multiset_partition [symmetric])

lemma set_objectEntries: "set (objectEntries kvs) = set kvs"
  using mset_objectEntries [of kvs] by (metis set_mset_mset)



lemma objectEntries_index_keys_example:
  "map fst (objectEntries [(''b'', 1::nat), (''10'', 2), (''9'', 3), (''a'', 4), (''07'', 5)])
   = [''9'', ''10'', ''b'', ''a'', ''07'']"
  by (simp add: objectEntries_def isArrayIndex_def isDigit_def natOfDigits_def digitVal_def)



lemma set_weakCandidates:
  "set (weakCandidates stats) = toWeakArea ` {kv \<in> set stats. isWeak (snd kv)}"
  by (auto simp: weakCandidates_def set_objectEntries)






lemma weakArea_entry:
  assumes "w \<in> set (sortBy cmpAccuracy (weakCandidates (groupStats rs)))"
  shows "\<exists>s. map_of (groupStats rs) (wa_questionId w) = Some s \<and> isWeak s
             \<and> w = toWeakArea (wa_questionId w, s)"
proof -
  from assms have "w \<in> set (weakCandidates (groupStats rs))"
    using mset_sortBy [of cmpAccuracy "weakCandidates (groupStats rs)"]
    by (metis set_mset_mset)
  then obtain k s where ks: "(k, s) \<in> set (groupStats rs)" "isWeak s" "w = toWeakArea (k, s)"
    by (auto simp: set_weakCandidates)
  then have "map_of (groupStats rs) k = Some s"
    using distinct_keys_groupStats by simp
  moreover have "wa_questionId w = k"
    using ks(3) by (simp add: toWeakArea_def Let_def)
  ultimately show ?thesis using ks by auto
qed





text \<open>
  Claim C6, as the code has it. A group is created at the first record of its question id
  and later records only increment its counters: every reported entry carries the question
  text, the correct answers and the topic of the first record of its id in the history,
  and an empty list of options.
\<close>

theorem weakAreas_first_seen:
  "\<forall>w \<in> set (weakAreas rs).
     wa_options w = []
     \<and> (case occurrences rs (wa_questionId w) of
          [] \<Rightarrow> False
        | a # as \<Rightarrow>
            wa_question w = a_question a
            \<and> wa_correctAnswers w = a_correctAnswers a
            \<and> wa_topic w = topicOrNull (a_topic a))"
proof
  fix w assume "w \<in> set (weakAreas rs)"
  then have "w \<in> set (sortBy cmpAccuracy (weakCandidates (groupStats rs)))"
    unfolding weakAreas_def by (rule in_set_takeD)
  then obtain s where s: "map_of (groupStats rs) (wa_questionId w) = Some s"
      "w = toWeakArea (wa_questionId w, s)"
    using weakArea_entry by blast
  from s(1) have g: "groupOf (occurrences rs (wa_questionId w)) = Some s"
    by (simp add: map_of_groupStats split: if_splits)
  have w: "wa_options w = st_options s" "wa_question w = st_question s"
      "wa_correctAnswers w = st_correctAnswers s" "wa_topic w = st_topic s"
    by (subst s(2), simp add: toWeakArea_def Let_def)+
  from g show "wa_options w = []
     \<and> (case occurrences rs (wa_questionId w) of
          [] \<Rightarrow> False
        | a # as \<Rightarrow>
            wa_question w = a_question a
            \<and> wa_correctAnswers w = a_correctAnswers a
            \<and> wa_topic w = topicOrNull (a_topic a))"
    unfolding w by (cases "occurrences rs (wa_questionId w)") auto
qed

lemma demo_edited_history:
  "weakAreas
       [[\<lparr>a_questionId = ''q_1'', a_question = ''Old text'', a_selectedAnswers = [''B''],
          a_correctAnswers = [''A''], a_isCorrect = False, a_timeSpent = None,
          a_flagged = None, a_topic = Some ''old topic''\<rparr>],
        [\<lparr>a_questionId = ''q_1'', a_question = ''New text'', a_selectedAnswers = [''B''],
          a_correctAnswers = [''C''], a_isCorrect = False, a_timeSpent = None,
          a_flagged = None, a_topic = Some ''new topic''\<rparr>]]
   = [\<lparr>wa_questionId = ''q_1'', wa_question = ''Old text'', wa_correctAnswers = [''A''],
       wa_options = [], wa_topic = Some ''old topic'', wa_timesAttempted = 2,
       wa_userAccuracy = 0\<rparr>]"
  by (simp add: weakAreas_def weakCandidates_def groupStats_def addAnswer_def Let_def bump_def
      newStat_def topicOrNull_def inheritedKeys_def objectEntries_def isArrayIndex_def
      isDigit_def isWeak_def toWeakArea_def sortBy_def cmpAccuracy_def toFixed2_def
      floor_rat_eval)

theorem weakAreas_first_seen_witness:
  "set (weakAreas
       [[\<lparr>a_questionId = ''q_1'', a_question = ''Old text'', a_selectedAnswers = [''B''],
          a_correctAnswers = [''A''], a_isCorrect = False, a_timeSpent = None,
          a_flagged = None, a_topic = Some ''old topic''\<rparr>],
        [\<lparr>a_questionId = ''q_1'', a_question = ''New text'', a_selectedAnswers = [''B''],
          a_correctAnswers = [''C''], a_isCorrect = False, a_timeSpent = None,
          a_flagged = None, a_topic = Some ''new topic''\<rparr>]])
     = {\<lparr>wa_questionId = ''q_1'', wa_question = ''Old text'', wa_correctAnswers = [''A''],
         wa_options = [], wa_topic = Some ''old topic'', wa_timesAttempted = 2,
         wa_userAccuracy = 0\<rparr>}
   \<and> map (\<lambda>w. (wa_question w, wa_correctAnswers w, wa_options w, wa_topic w))
      (weakAreas
       [[\<lparr>a_questionId = ''q_1'', a_question = ''Old text'', a_selectedAnswers = [''B''],
          a_correctAnswers = [''A''], a_isCorrect = False, a_timeSpent = None,
          a_flagged = None, a_topic = Some ''old topic''\<rparr>],
        [\<lparr>a_questionId = ''q_1'', a_question = ''New text'', a_selectedAnswers = [''B''],
          a_correctAnswers = [''C''], a_isCorrect = False, a_timeSpent = None,
          a_flagged = None, a_topic = Some ''new topic''\<rparr>]])
     = [(''Old text'', [''A''], [], Some ''old topic'')]"
  (is "set (weakAreas ?H) = _ \<and> _")
proof -
  have "\<forall>w \<in> set (weakAreas ?H).
     wa_options w = []
     \<and> (case occurrences ?H (wa_questionId w) of
          [] \<Rightarrow> False
        | a # as \<Rightarrow>
            wa_question w = a_question a
            \<and> wa_correctAnswers w = a_correctAnswers a
            \<and> wa_topic w = topicOrNull (a_topic a))"
    by (rule weakAreas_first_seen)
  then show ?thesis
    unfolding demo_edited_history by (simp add: occurrences_def topicOrNull_def)
qed

text \<open>
  Claim C6 as stated fails when a question reappears with edited metadata: with the results
  in the order in which they were stored, the analyzer reports the text and the correct
  answers of the older record, not those of the most recent one.
\<close>

theorem weakAreas_last_write_counterexample:
  "map a_question
     (occurrences
       [[\<lparr>a_questionId = ''q_1'', a_question = ''Old text'', a_selectedAnswers = [''B''],
          a_correctAnswers = [''A''], a_isCorrect = False, a_timeSpent = None,
          a_flagged = None, a_topic = None\<rparr>],
        [\<lparr>a_questionId = ''q_1'', a_question = ''New text'', a_selectedAnswers = [''B''],
          a_correctAnswers = [''C''], a_isCorrect = False, a_timeSpent = None,
          a_flagged = None, a_topic = None\<rparr>]]
       ''q_1'')
     = [''Old text'', ''New text'']
   \<and> map (\<lambda>w. (wa_questionId w, wa_question w, wa_correctAnswers w))
       (weakAreas
         [[\<lparr>a_questionId = ''q_1'', a_question = ''Old text'', a_selectedAnswers = [''B''],
            a_correctAnswers = [''A''], a_isCorrect = False, a_timeSpent = None,
            a_flagged = None, a_topic = None\<rparr>],
          [\<lparr>a_questionId = ''q_1'', a_question = ''New text'', a_selectedAnswers = [''B''],
            a_correctAnswers = [''C''], a_isCorrect = False, a_timeSpent = None,
            a_flagged = None, a_topic = None\<rparr>]])
     = [(''q_1'', ''Old text'', [''A''])]"
  by (simp add: occurrences_def weakAreas_def weakCandidates_def groupStats_def addAnswer_def
      Let_def bump_def newStat_def topicOrNull_def inheritedKeys_def objectEntries_def
      isArrayIndex_def isDigit_def isWeak_def toWeakArea_def sortBy_def cmpAccuracy_def
      toFixed2_def floor_rat_eval)

section \<open>Question-set normalizer: properties\<close>

lemma isArray_truthy: "isArray v \<Longrightarrow> truthy v"
  by (cases v rule: isArray.cases) simp_all

lemma parseOne_wellFormed: "wellFormed q \<Longrightarrow> parseOne i q = Inr (buildQuestion i q)"
  by (auto simp: wellFormed_def parseOne_def isArray_truthy)

lemma parseOne_malformed: "\<not> wellFormed q \<Longrightarrow> parseOne i q = Inl (malformedError i q)"
  by (auto simp: wellFormed_def parseOne_def malformedError_def isArray_truthy)

lemma parseFrom_all_wellFormed:
  "list_all wellFormed qs \<Longrightarrow>
   parseFrom i qs = Inr (map (\<lambda>(j, q). buildQuestion j q) (zip [i ..< i + length qs] qs))"
proof (induction qs arbitrary: i)
  case Nil
  show ?case by simp
next
  case (Cons q qs)
  have "[i ..< i + length (q # qs)] = i # [i + 1 ..< (i + 1) + length qs]"
    by (simp add: upt_rec)
  with Cons show ?case
    by (simp add: parseOne_wellFormed)
qed

lemma parseFrom_first_malformed:
  assumes "j < length qs" "\<forall>l < j. wellFormed (qs ! l)" "\<not> wellFormed (qs ! j)"
  shows "parseFrom i qs = Inl (malformedError (i + j) (qs ! j))"
  using assms
proof (induction qs arbitrary: i j)
  case Nil
  then show ?case by simp
next
  case (Cons q qs)
  show ?case
  proof (cases j)
    case 0
    with Cons.prems show ?thesis by (simp add: parseOne_malformed)
  next
    case (Suc j')
    with Cons.prems have wf: "wellFormed q" by auto
    from Suc Cons.prems have "j' < length qs" "\<forall>l < j'. wellFormed (qs ! l)"
        "\<not> wellFormed (qs ! j')"
      by auto
    from Cons.IH [OF this, of "i + 1"] Suc wf show ?thesis
      by (simp add: parseOne_wellFormed)
  qed
qed

lemma first_malformed_exists:
  assumes "\<not> list_all wellFormed qs"
  shows "\<exists>j < length qs. (\<forall>l < j. wellFormed (qs ! l)) \<and> \<not> wellFormed (qs ! j)"
proof -
  let ?P = "\<lambda>j. j < length qs \<and> \<not> wellFormed (qs ! j)"
  from assms obtain j0 where "?P j0"
    by (auto simp: list_all_length)
  then have "?P (LEAST j. ?P j)" and "\<forall>l < (LEAST j. ?P j). \<not> ?P l"
    using LeastI [of ?P j0] not_less_Least by blast+
  then show ?thesis
    by (metis (no_types, lifting) less_trans)
qed


text \<open>
  Claim C7, as the code has it. A batch is accepted iff every record is not \<open>null\<close>, has
  a truthy \<open>question\<close>, an \<open>options\<close> array (which may be empty) and a non-empty resolved
  list of correct answers (the \<open>correctAnswers\<close> array when there is one, else the single
  truthy \<open>correctAnswer\<close>). An accepted batch yields one question per record, in order.
  A batch with a malformed record fails as a whole, with the error of its first malformed
  record: \<open>Invalid question at index i\<close> with the record's 0-based index, or
  \<open>No correct answer for question i + 1\<close>, or a \<open>TypeError\<close> for a \<open>null\<close> record.
\<close>

theorem parseQuestions_contract:
  "((\<exists>out. parseQuestions (JArr qs) = Inr out) \<longleftrightarrow> (\<forall>q \<in> set qs. wellFormed q))
   \<and> (\<forall>out. parseQuestions (JArr qs) = Inr out \<longrightarrow>
         length out = length qs \<and> (\<forall>j < length qs. out ! j = buildQuestion j (qs ! j)))
   \<and> (\<forall>j < length qs. (\<forall>l < j. wellFormed (qs ! l)) \<and> \<not> wellFormed (qs ! j) \<longrightarrow>
         parseQuestions (JArr qs) = Inl (malformedError j (qs ! j)))
   \<and> (\<not> (\<forall>q \<in> set qs. wellFormed q) \<longrightarrow>
         (\<exists>j < length qs. \<not> wellFormed (qs ! j)
            \<and> parseQuestions (JArr qs) = Inl (malformedError j (qs ! j))))"
proof -
  have pq: "parseQuestions (JArr qs) = parseFrom 0 qs"
    by (simp add: parseQuestions_def)
  have good: "parseQuestions (JArr qs)
      = Inr (map (\<lambda>(j, q). buildQuestion j q) (zip [0 ..< length qs] qs))"
    if "\<forall>q \<in> set qs. wellFormed q"
    using parseFrom_all_wellFormed [of qs 0] that by (simp add: pq list_all_iff)
  have bad: "parseQuestions (JArr qs) = Inl (malformedError j (qs ! j))"
    if "j < length qs" "\<forall>l < j. wellFormed (qs ! l)" "\<not> wellFormed (qs ! j)" for j
    using parseFrom_first_malformed [OF that, of 0] by (simp add: pq)
  have bad_ex: "\<exists>j < length qs. \<not> wellFormed (qs ! j)
            \<and> parseQuestions (JArr qs) = Inl (malformedError j (qs ! j))"
    if "\<not> (\<forall>q \<in> set qs. wellFormed q)"
  proof -
    from that have "\<not> list_all wellFormed qs" by (simp add: list_all_iff)
    from first_malformed_exists [OF this] obtain j where
      "j < length qs" "\<forall>l < j. wellFormed (qs ! l)" "\<not> wellFormed (qs ! j)"
      by blast
    with bad [of j] show ?thesis by blast
  qed
  have c1: "(\<exists>out. parseQuestions (JArr qs) = Inr out) \<longleftrightarrow> (\<forall>q \<in> set qs. wellFormed q)"
    using good bad_ex by (metis Inl_Inr_False)
  have c2: "\<forall>out. parseQuestions (JArr qs) = Inr out \<longrightarrow>
         length out = length qs \<and> (\<forall>j < length qs. out ! j = buildQuestion j (qs ! j))"
  proof (intro allI impI)
    fix out assume out: "parseQuestions (JArr qs) = Inr out"
    with c1 have "\<forall>q \<in> set qs. wellFormed q" by blast
    from good [OF this] out
    have "out = map (\<lambda>(j, q). buildQuestion j q) (zip [0 ..< length qs] qs)" by simp
    then show "length out = length qs \<and> (\<forall>j < length qs. out ! j = buildQuestion j (qs ! j))"
      by simp
  qed
  from c1 c2 bad bad_ex show ?thesis by blast
qed

theorem parseQuestions_contract_witness:
  "wellFormed (JObj [(''question'', JStr ''Q1''), (''options'', JArr [JStr ''A'', JStr ''B'']),
                     (''correctAnswer'', JStr ''A'')])
   \<and> \<not> wellFormed (JObj [(''question'', JStr ''Q2''), (''options'', JArr [JStr ''A'']),
                         (''correctAnswers'', JArr [])])
   \<and> parseQuestions
        (JArr [JObj [(''question'', JStr ''Q1''), (''options'', JArr [JStr ''A'', JStr ''B'']),
                     (''correctAnswer'', JStr ''A'')],
               JObj [(''question'', JStr ''Q2''), (''options'', JArr [JStr ''A'']),
                     (''correctAnswers'', JArr [])]])
      = Inl (NoCorrectAnswer 2)
   \<and> parseQuestions
        (JArr [JObj [(''question'', JStr ''Q1''), (''options'', JArr [JStr ''A'', JStr ''B'']),
                     (''correctAnswer'', JStr ''A'')]])
      = Inr [\<lparr>pq_id = JStr ''q_1'', pq_question = Some (JStr ''Q1''),
              pq_options = [JStr ''A'', JStr ''B''], pq_correctAnswers = [JStr ''A''],
              pq_type = Single, pq_explanation = None, pq_topic = None\<rparr>]"
  (is "wellFormed ?q1 \<and> \<not> wellFormed ?q2 \<and> _ \<and> _")
proof -
  have wf1: "wellFormed ?q1" and wf2: "\<not> wellFormed ?q2"
    by (simp_all add: wellFormed_def resolveCorrect_def)
  have "parseQuestions (JArr [?q1, ?q2]) = Inl (malformedError 1 ([?q1, ?q2] ! 1))"
  proof (rule parseQuestions_contract
      [THEN conjunct2, THEN conjunct2, THEN conjunct1, rule_format, of 1 "[?q1, ?q2]"])
    show "1 < length [?q1, ?q2]" by simp
    show "(\<forall>l < 1. wellFormed ([?q1, ?q2] ! l)) \<and> \<not> wellFormed ([?q1, ?q2] ! 1)"
      using wf1 wf2 by simp
  qed
  then have bad: "parseQuestions (JArr [?q1, ?q2]) = Inl (NoCorrectAnswer 2)"
    by (simp add: malformedError_def resolveCorrect_def)
  have ok: "parseQuestions (JArr [?q1])
      = Inr [\<lparr>pq_id = JStr ''q_1'', pq_question = Some (JStr ''Q1''),
              pq_options = [JStr ''A'', JStr ''B''], pq_correctAnswers = [JStr ''A''],
              pq_type = Single, pq_explanation = None, pq_topic = None\<rparr>]"
    by (simp add: parseQuestions_def parseOne_def buildQuestion_def resolveCorrect_def Let_def
        showNat.simps digitChar_def)
  from wf1 wf2 bad ok show ?thesis by blast
qed

text \<open>
  Claim C7 as stated fails at a record whose \<open>options\<close> sequence is empty: an empty array
  is truthy and is an array, so the batch is accepted.
\<close>

theorem parseQuestions_empty_options_counterexample:
  "parseQuestions
     (JArr [JObj [(''question'', JStr ''Q1''), (''options'', JArr []),
                  (''correctAnswer'', JStr ''A'')]])
   = Inr [\<lparr>pq_id = JStr ''q_1'', pq_question = Some (JStr ''Q1''), pq_options = [],
           pq_correctAnswers = [JStr ''A''], pq_type = Single, pq_explanation = None,
           pq_topic = None\<rparr>]"
  by (simp add: parseQuestions_def parseOne_def buildQuestion_def resolveCorrect_def Let_def
      showNat.simps digitChar_def)

section \<open>Exam session: properties\<close>

lemma handleSubmit_ids:
  "map ua_questionId (fst (handleSubmit now ex s)) = map q_id (e_questions ex)"
  by (simp add: handleSubmit_def Let_def comp_def)

lemma handleSubmit_length:
  "length (fst (handleSubmit now ex s)) = length (e_questions ex)"
  by (simp add: handleSubmit_def Let_def)

lemma handleSubmit_nth:
  "i < length (e_questions ex) \<Longrightarrow>
   fst (handleSubmit now ex s) ! i =
     \<lparr>ua_questionId = q_id (e_questions ex ! i),
      ua_selectedAnswers =
        (case answers s (q_id (e_questions ex ! i)) of None \<Rightarrow> [] | Some sel \<Rightarrow> sel),
      ua_timeSpent =
        (case questionTimes s (q_id (e_questions ex ! i)) of None \<Rightarrow> 0 | Some t \<Rightarrow> orZero t),
      ua_flagged = (q_id (e_questions ex ! i) \<in> flagged s)\<rparr>"
  by (simp add: handleSubmit_def Let_def)

lemma step_index:
  assumes "currentIndex s < length (e_questions ex)" "step ex s e = Some s'"
  shows "currentIndex s' < length (e_questions ex)"
  using assms
  by (cases e)
    (auto simp: goTo_def flushCurrentTime_def toggleFlag_def handleAnswerChange_def Let_def
      split: if_splits)

lemma step_defined:
  assumes "inRange ex e" "currentIndex s < length (e_questions ex)"
  shows "step ex s e \<noteq> None"
  using assms by (cases e) (auto simp: goTo_def)

lemma step_untouched:
  assumes "step ex s e = Some s'" "k \<notin> touchedBy ex s e"
  shows "answers s' k = answers s k \<and> questionTimes s' k = questionTimes s k
         \<and> (k \<in> flagged s' \<longleftrightarrow> k \<in> flagged s)"
  using assms
  by (cases e)
    (auto simp: goTo_def flushCurrentTime_def toggleFlag_def handleAnswerChange_def Let_def
      split: if_splits option.splits)

lemma run_untouched:
  assumes "run ex s evs = Some s'" "k \<notin> interacted ex s evs"
  shows "answers s' k = answers s k \<and> questionTimes s' k = questionTimes s k
         \<and> (k \<in> flagged s' \<longleftrightarrow> k \<in> flagged s)"
  using assms
proof (induction evs arbitrary: s)
  case Nil
  then show ?case by simp
next
  case (Cons e es)
  from Cons.prems(1) obtain s1 where s1: "step ex s e = Some s1" "run ex s1 es = Some s'"
    by (auto split: option.splits)
  from Cons.prems(2) s1(1) have nt: "k \<notin> touchedBy ex s e" "k \<notin> interacted ex s1 es"
    by auto
  from step_untouched [OF s1(1) nt(1)] Cons.IH [OF s1(2) nt(2)] show ?case
    by simp
qed

lemma run_defined:
  assumes "\<forall>e \<in> set evs. inRange ex e" "currentIndex s < length (e_questions ex)"
  shows "run ex s evs \<noteq> None"
  using assms
proof (induction evs arbitrary: s)
  case Nil
  show ?case by simp
next
  case (Cons e es)
  then obtain s1 where s1: "step ex s e = Some s1"
    using step_defined [of ex e s] by auto
  with Cons.prems(2) have "currentIndex s1 < length (e_questions ex)"
    using step_index by blast
  with Cons s1 show ?case by simp
qed


text \<open>
  Claim C10. From the initial state of a session on an exam, after any sequence of
  interactions (the grid addressing existing questions), the session is in a state from
  which the submission emits exactly one record per exam question, in the exam's order and
  with the question's id; the record of a question whose id the interactions never touched
  has no selected answers, time 0 and no flag, and is scored incorrect when the question
  has a correct answer.
\<close>

theorem handleSubmit_spec:
  assumes init: "initSession t0 ex = Some s0"
      and ev: "\<forall>e \<in> set evs. inRange ex e"
  shows "\<exists>s. run ex s0 evs = Some s
           \<and> map ua_questionId (fst (handleSubmit now ex s)) = map q_id (e_questions ex)
           \<and> length (fst (handleSubmit now ex s)) = length (e_questions ex)
           \<and> (\<forall>i < length (e_questions ex).
                 q_id (e_questions ex ! i) \<notin> interacted ex s0 evs \<longrightarrow>
                 fst (handleSubmit now ex s) ! i =
                   \<lparr>ua_questionId = q_id (e_questions ex ! i), ua_selectedAnswers = [],
                    ua_timeSpent = 0, ua_flagged = False\<rparr>
                 \<and> (q_correctAnswers (e_questions ex ! i) \<noteq> [] \<longrightarrow>
                      \<not> isCorrect (ua_selectedAnswers (fst (handleSubmit now ex s) ! i))
                            (q_correctAnswers (e_questions ex ! i))))"
proof -
  from init have ne: "e_questions ex \<noteq> []"
    and s0: "s0 = \<lparr>currentIndex = 0, answers = Map.empty, flagged = {},
                   questionTimes = Map.empty, startTime = t0, questionStart = t0\<rparr>"
    by (auto simp: initSession_def split: if_splits)
  from ne s0 have "currentIndex s0 < length (e_questions ex)" by simp
  with ev obtain s where s: "run ex s0 evs = Some s"
    using run_defined by blast
  have fresh: "fst (handleSubmit now ex s) ! i =
                   \<lparr>ua_questionId = q_id (e_questions ex ! i), ua_selectedAnswers = [],
                    ua_timeSpent = 0, ua_flagged = False\<rparr>"
    if "i < length (e_questions ex)" "q_id (e_questions ex ! i) \<notin> interacted ex s0 evs" for i
  proof -
    from run_untouched [OF s that(2)] s0
    have "answers s (q_id (e_questions ex ! i)) = None"
        "questionTimes s (q_id (e_questions ex ! i)) = None"
        "q_id (e_questions ex ! i) \<notin> flagged s"
      by simp_all
    with handleSubmit_nth [OF that(1), of now s] show ?thesis by simp
  qed
  have wrong: "\<not> isCorrect (ua_selectedAnswers (fst (handleSubmit now ex s) ! i))
                            (q_correctAnswers (e_questions ex ! i))"
    if "i < length (e_questions ex)" "q_id (e_questions ex ! i) \<notin> interacted ex s0 evs"
      "q_correctAnswers (e_questions ex ! i) \<noteq> []" for i
    using fresh [OF that(1,2)] isCorrect_empty [OF that(3)] by simp
  from s fresh wrong handleSubmit_ids handleSubmit_length show ?thesis by blast
qed

theorem handleSubmit_spec_witness:
  "initSession 0
     \<lparr>e_title = ''Demo'', e_subject = None,
      e_questions =
        [\<lparr>q_id = ''q_1'', q_question = ''First'', q_options = [''A'', ''B''],
          q_correctAnswers = [''A''], q_type = Single, q_explanation = None, q_topic = None\<rparr>,
         \<lparr>q_id = ''q_2'', q_question = ''Second'', q_options = [''A'', ''B'', ''C''],
          q_correctAnswers = [''B'', ''C''], q_type = Multi, q_explanation = None,
          q_topic = None\<rparr>],
      e_timeLimit = None\<rparr>
   = Some \<lparr>currentIndex = 0, answers = Map.empty, flagged = {},
           questionTimes = Map.empty, startTime = 0, questionStart = 0\<rparr>
   \<and> list_all
       (inRange
         \<lparr>e_title = ''Demo'', e_subject = None,
          e_questions =
            [\<lparr>q_id = ''q_1'', q_question = ''First'', q_options = [''A'', ''B''],
              q_correctAnswers = [''A''], q_type = Single, q_explanation = None,
              q_topic = None\<rparr>,
             \<lparr>q_id = ''q_2'', q_question = ''Second'', q_options = [''A'', ''B'', ''C''],
              q_correctAnswers = [''B'', ''C''], q_type = Multi, q_explanation = None,
              q_topic = None\<rparr>],
          e_timeLimit = None\<rparr>)
       [AnswerChange [''A''], HandleNext 5000]
   \<and> map_option
       (handleSubmit 9000
         \<lparr>e_title = ''Demo'', e_subject = None,
          e_questions =
            [\<lparr>q_id = ''q_1'', q_question = ''First'', q_options = [''A'', ''B''],
              q_correctAnswers = [''A''], q_type = Single, q_explanation = None,
              q_topic = None\<rparr>,
             \<lparr>q_id = ''q_2'', q_question = ''Second'', q_options = [''A'', ''B'', ''C''],
              q_correctAnswers = [''B'', ''C''], q_type = Multi, q_explanation = None,
              q_topic = None\<rparr>],
          e_timeLimit = None\<rparr>)
       (run
         \<lparr>e_title = ''Demo'', e_subject = None,
          e_questions =
            [\<lparr>q_id = ''q_1'', q_question = ''First'', q_options = [''A'', ''B''],
              q_correctAnswers = [''A''], q_type = Single, q_explanation = None,
              q_topic = None\<rparr>,
             \<lparr>q_id = ''q_2'', q_question = ''Second'', q_options = [''A'', ''B'', ''C''],
              q_correctAnswers = [''B'', ''C''], q_type = Multi, q_explanation = None,
              q_topic = None\<rparr>],
          e_timeLimit = None\<rparr>
         \<lparr>currentIndex = 0, answers = Map.empty, flagged = {},
          questionTimes = Map.empty, startTime = 0, questionStart = 0\<rparr>
         [AnswerChange [''A''], HandleNext 5000])
     = Some ([\<lparr>ua_questionId = ''q_1'', ua_selectedAnswers = [''A''], ua_timeSpent = 5,
               ua_flagged = False\<rparr>,
              \<lparr>ua_questionId = ''q_2'', ua_selectedAnswers = [], ua_timeSpent = 0,
               ua_flagged = False\<rparr>],
             9)"
  (is "initSession 0 ?ex = Some ?s0 \<and> list_all (inRange ?ex) ?evs \<and> _")
proof -
  have i: "initSession 0 ?ex = Some ?s0"
    by (simp add: initSession_def)
  have r: "\<forall>e \<in> set ?evs. inRange ?ex e"
    by simp
  from handleSubmit_spec [OF i r, of 9000] obtain s where "run ?ex ?s0 ?evs = Some s"
    by blast
  moreover have "run ?ex ?s0 ?evs =
      Some \<lparr>currentIndex = 1, answers = [''q_1'' \<mapsto> [''A'']], flagged = {},
            questionTimes = [''q_1'' \<mapsto> 5], startTime = 0, questionStart = 5000\<rparr>"
    by (simp add: goTo_def flushCurrentTime_def handleAnswerChange_def currentId_def
        elapsedSince_def Let_def)
  ultimately show ?thesis
    using i by (simp add: handleSubmit_def elapsedSince_def orZero_def Let_def)
qed

end
